theory Spec2Isabelle
  imports Main "HOL-Library.Word" "HOL-Library.Multiset"
begin

unbundle bit_operations_syntax

section \<open>The reservation backend of \<open>qr.py\<close>\<close>

text \<open>
  The module keeps three SQLite tables behind the peewee ORM and offers three endpoints:
  \<open>make_spot\<close>, \<open>reserve_ticket\<close> and \<open>redeem_ticket\<close>. The tables are modelled as lists
  of rows in insertion order, the database as a record of the three lists, and every
  server function as a function from the database to its result and the database
  afterwards. What a function takes from outside the program is an argument of the
  model: the reading of \<open>time.time()\<close>, the two 64-bit halves of \<open>uuid.uuid4().bytes\<close> and
  the two 64-bit halves of the mmh3 digest of a serialised model.

  Python integers are \<open>int\<close>, and so are the integer columns: the 64-bit limit of an
  SQLite \<open>INTEGER\<close> is not part of the model. The identifiers are computed on
  \<open>numpy.int64\<close>, which is \<open>64 word\<close> read back as a signed number.
\<close>

subsection \<open>Client-facing objects\<close>

datatype CUnixTime = CUnixTime (seconds: int)

record CSlot =
  cslot_start :: CUnixTime
  cslot_end :: "CUnixTime option"
  cslot_capacity :: "int option"
  cslot_note :: "string option"

record CSpot =
  cspot_name :: string
  cspot_note :: "string option"
  cspot_slots :: "CSlot list"

record CTicket =
  cticket_slot :: CSlot
  cticket_spot_name :: string
  cticket_spot_id :: int
  cticket_ticket_id :: int
  cticket_note :: "string option"

subsection \<open>Errors\<close>

text \<open>
  One constructor for each exception class that the module raises.
  \<^item> \<open>Exception m\<close>: Python's builtin \<open>Exception\<close>, the only class the module raises
    itself, with the message \<open>m\<close>;
  \<^item> \<open>IntegrityError\<close>: peewee's error for a violated primary key, unique or not-null
    constraint;
  \<^item> \<open>ValidationError\<close>: pydantic's error for a value that violates a field constraint.
\<close>

datatype error =
    Exception (message: string)
  | IntegrityError
  | ValidationError

text \<open>
  The decimal numerals that an f-string writes for \<open>len(spots)\<close> and for \<open>ticket_id\<close>.
\<close>

fun str_nat :: "nat \<Rightarrow> string" where
  "str_nat n =
     (if n < 10 then [''0123456789'' ! n]
      else str_nat (n div 10) @ [''0123456789'' ! (n mod 10)])"

definition str_int :: "int \<Rightarrow> string" where
  "str_int i = (if i < 0 then ''-'' @ str_nat (nat (- i)) else str_nat (nat i))"

subsection \<open>Construction of a slot view\<close>

text \<open>
  \<open>capacity: Optional[int] = pydantic.Field((1<<13), ge=0, le=(1<<13))\<close>. A keyword the
  caller leaves out takes the default, which pydantic does not validate; \<open>None\<close> is
  admitted by \<open>Optional\<close>; an integer is checked against \<open>ge\<close> and \<open>le\<close>.
\<close>

datatype 'a arg = Omitted | Supplied 'a

definition capacity_default :: int where
  "capacity_default = push_bit 13 1"

definition capacity_field :: "int option arg \<Rightarrow> error + int option" where
  "capacity_field a =
     (case a of
        Omitted \<Rightarrow> Inr (Some capacity_default)
      | Supplied None \<Rightarrow> Inr None
      | Supplied (Some c) \<Rightarrow>
          if 0 \<le> c \<and> c \<le> push_bit 13 1 then Inr (Some c) else Inl ValidationError)"

definition CSlot_init ::
  "CUnixTime \<Rightarrow> CUnixTime option \<Rightarrow> int option arg \<Rightarrow> string option \<Rightarrow> error + CSlot" where
  "CSlot_init start end capacity note =
     (case capacity_field capacity of
        Inl e \<Rightarrow> Inl e
      | Inr c \<Rightarrow>
          Inr \<lparr>cslot_start = start, cslot_end = end, cslot_capacity = c, cslot_note = note\<rparr>)"

subsection \<open>Tables\<close>

record PSpot =
  pspot_id :: int
  pspot_name :: string
  pspot_note :: "string option"

record PSlot =
  pslot_id :: int
  pslot_spot_id :: int
  pslot_start :: int
  pslot_end :: "int option"
  pslot_capacity :: int
  pslot_note :: "string option"
  pslot_reservations :: int

record PTicket =
  pticket_ticket_id :: int
  pticket_slot_id :: int
  pticket_spot_id :: int
  pticket_presentments :: int
  pticket_note :: "string option"
  pticket_serial_number :: int

record db =
  pspots :: "PSpot list"
  pslots :: "PSlot list"
  ptickets :: "PTicket list"

definition empty_db :: db where
  "empty_db = \<lparr>pspots = [], pslots = [], ptickets = []\<rparr>"

text \<open>
  \<open>Model.create\<close> inserts a row. \<open>PSpot\<close> has \<open>name\<close> as primary key and \<open>id\<close> unique;
  \<open>PSlot\<close> has \<open>id\<close> as primary key; \<open>PTicket\<close> has \<open>ticket_id\<close> as primary key.
\<close>

definition PSpot_create :: "PSpot \<Rightarrow> db \<Rightarrow> error + db" where
  "PSpot_create r d =
     (if pspot_name r \<in> set (map pspot_name (pspots d))
          \<or> pspot_id r \<in> set (map pspot_id (pspots d)) then Inl IntegrityError
      else Inr (d\<lparr>pspots := pspots d @ [r]\<rparr>))"

definition PSlot_create :: "PSlot \<Rightarrow> db \<Rightarrow> error + db" where
  "PSlot_create r d =
     (if pslot_id r \<in> set (map pslot_id (pslots d)) then Inl IntegrityError
      else Inr (d\<lparr>pslots := pslots d @ [r]\<rparr>))"

definition PTicket_create :: "PTicket \<Rightarrow> db \<Rightarrow> error + db" where
  "PTicket_create r d =
     (if pticket_ticket_id r \<in> set (map pticket_ticket_id (ptickets d))
      then Inl IntegrityError
      else Inr (d\<lparr>ptickets := ptickets d @ [r]\<rparr>))"

text \<open>
  \<open>save()\<close> on an object read from the table: \<open>UPDATE\<close> of every other column in the
  rows whose primary key is the object's.
\<close>

definition PSlot_save :: "PSlot \<Rightarrow> db \<Rightarrow> db" where
  "PSlot_save r d =
     d\<lparr>pslots := map (\<lambda>x. if pslot_id x = pslot_id r then r else x) (pslots d)\<rparr>"

definition PTicket_save :: "PTicket \<Rightarrow> db \<Rightarrow> db" where
  "PTicket_save r d =
     d\<lparr>ptickets :=
         map (\<lambda>x. if pticket_ticket_id x = pticket_ticket_id r then r else x) (ptickets d)\<rparr>"

subsection \<open>Identifiers\<close>

type_synonym halves = "64 word \<times> 64 word"

definition make_id :: "halves \<Rightarrow> halves \<Rightarrow> int" where
  "make_id R H = sint (fst R XOR snd R XOR fst H XOR snd H)"

definition make_ticket_id :: "halves \<Rightarrow> int" where
  "make_ticket_id R = sint (fst R XOR snd R)"

subsection \<open>Server operations\<close>

text \<open>
  \<open>@db.atomic()\<close>: the function runs in a transaction, which is rolled back when the
  function raises.
\<close>

definition atomic :: "(db \<Rightarrow> error + ('a \<times> db)) \<Rightarrow> db \<Rightarrow> (error + 'a) \<times> db" where
  "atomic f d = (case f d of Inl e \<Rightarrow> (Inl e, d) | Inr (v, d') \<Rightarrow> (Inr v, d'))"

definition make_slot :: "halves \<Rightarrow> halves \<Rightarrow> CSlot \<Rightarrow> int \<Rightarrow> db \<Rightarrow> error + db" where
  "make_slot R H cslot spot_id d =
     (case cslot_capacity cslot of
        None \<Rightarrow> Inl IntegrityError
      | Some c \<Rightarrow>
          PSlot_create
            \<lparr>pslot_id = make_id R H,
             pslot_spot_id = spot_id,
             pslot_start = seconds (cslot_start cslot),
             pslot_end = (case cslot_end cslot of None \<Rightarrow> None | Some t \<Rightarrow> Some (seconds t)),
             pslot_capacity = c,
             pslot_note = cslot_note cslot,
             pslot_reservations = 0\<rparr> d)"

text \<open>
  The loop of \<open>make_spot\<close> over \<open>cspot.slots\<close>; the \<open>i\<close>-th call of \<open>uuid4\<close> reads
  \<open>rnd i\<close>, and \<open>hslot\<close> is the mmh3 digest of a slot view's JSON.
\<close>

fun make_slots ::
  "(nat \<Rightarrow> halves) \<Rightarrow> (CSlot \<Rightarrow> halves) \<Rightarrow> nat \<Rightarrow> CSlot list \<Rightarrow> int \<Rightarrow> db \<Rightarrow> error + db" where
  "make_slots rnd hslot i [] spot_id d = Inr d"
| "make_slots rnd hslot i (cslot # rest) spot_id d =
     (case make_slot (rnd i) (hslot cslot) cslot spot_id d of
        Inl e \<Rightarrow> Inl e
      | Inr d' \<Rightarrow> make_slots rnd hslot (Suc i) rest spot_id d')"

definition make_spot_body ::
  "(nat \<Rightarrow> halves) \<Rightarrow> (CSpot \<Rightarrow> halves) \<Rightarrow> (CSlot \<Rightarrow> halves) \<Rightarrow> CSpot \<Rightarrow> db \<Rightarrow> error + (unit \<times> db)" where
  "make_spot_body rnd hspot hslot cspot d =
     (let spot_id = make_id (rnd 0) (hspot cspot) in
      case PSpot_create
             \<lparr>pspot_id = spot_id, pspot_name = cspot_name cspot, pspot_note = cspot_note cspot\<rparr> d of
        Inl e \<Rightarrow> Inl e
      | Inr d1 \<Rightarrow>
          (case make_slots rnd hslot 1 (cspot_slots cspot) spot_id d1 of
             Inl e \<Rightarrow> Inl e
           | Inr d2 \<Rightarrow> Inr ((), d2)))"

definition make_spot ::
  "(nat \<Rightarrow> halves) \<Rightarrow> (CSpot \<Rightarrow> halves) \<Rightarrow> (CSlot \<Rightarrow> halves) \<Rightarrow> CSpot \<Rightarrow> db \<Rightarrow> (error + unit) \<times> db" where
  "make_spot rnd hspot hslot cspot = atomic (make_spot_body rnd hspot hslot cspot)"

text \<open>
  \<open>get_available\<close>: a \<open>SELECT\<close> with \<open>ORDER BY start\<close>. SQL leaves the order of rows with
  equal \<open>start\<close> open; the model keeps them in table order. \<open>clock\<close> is the reading of
  \<open>int(time.time())\<close>, used when \<open>now\<close> is \<open>None\<close>.
\<close>

definition get_available :: "int \<Rightarrow> int \<Rightarrow> int option \<Rightarrow> db \<Rightarrow> PSlot list \<times> db" where
  "get_available clock spot_id now d =
     (let now' = (case now of None \<Rightarrow> clock | Some n \<Rightarrow> n);
          available =
            sort_key pslot_start
              (filter (\<lambda>s. pslot_reservations s \<le> pslot_capacity s
                          \<and> pslot_spot_id s = spot_id
                          \<and> pslot_start s \<ge> now') (pslots d))
      in (available, d))"

definition get_spot_id :: "string \<Rightarrow> db \<Rightarrow> error + (int \<times> db)" where
  "get_spot_id spot_name d =
     (let spots = filter (\<lambda>s. pspot_name s = spot_name) (pspots d) in
      if length spots \<noteq> 1
      then Inl (Exception (''spot name '' @ spot_name @ '' associated with ''
                           @ str_nat (length spots) @ '' IDs''))
      else Inr (pspot_id (spots ! 0), d))"

definition reserve_ticket_body ::
  "int \<Rightarrow> halves \<Rightarrow> string \<Rightarrow> string option \<Rightarrow> db \<Rightarrow> error + (CTicket option \<times> db)" where
  "reserve_ticket_body clock R spot_name note d =
     (case get_spot_id spot_name d of
        Inl e \<Rightarrow> Inl e
      | Inr (spot_id, d0) \<Rightarrow>
          (case get_available clock spot_id None d0 of
             (available, d1) \<Rightarrow>
               if length available = 0 then Inr (None, d1)
               else
                 let pslot = available ! 0;
                     ticket_id = make_ticket_id R
                 in
                   (case PTicket_create
                           \<lparr>pticket_ticket_id = ticket_id,
                            pticket_slot_id = pslot_id pslot,
                            pticket_spot_id = spot_id,
                            pticket_presentments = 0,
                            pticket_note = note,
                            pticket_serial_number = pslot_reservations pslot\<rparr> d1 of
                      Inl e \<Rightarrow> Inl e
                    | Inr d2 \<Rightarrow>
                        (case CSlot_init
                                (CUnixTime (pslot_start pslot))
                                (case pslot_end pslot of
                                   None \<Rightarrow> None
                                 | Some e \<Rightarrow> if e = 0 then None else Some (CUnixTime e))
                                Omitted
                                (pslot_note pslot) of
                           Inl e \<Rightarrow> Inl e
                         | Inr cslot \<Rightarrow>
                             let cticket =
                                   \<lparr>cticket_slot = cslot,
                                    cticket_spot_name = spot_name,
                                    cticket_spot_id = spot_id,
                                    cticket_ticket_id = ticket_id,
                                    cticket_note = note\<rparr>;
                                 pslot' = pslot\<lparr>pslot_reservations := pslot_reservations pslot + 1\<rparr>
                             in Inr (Some cticket, PSlot_save pslot' d2)))))"

definition reserve_ticket ::
  "int \<Rightarrow> halves \<Rightarrow> string \<Rightarrow> string option \<Rightarrow> db \<Rightarrow> (error + CTicket option) \<times> db" where
  "reserve_ticket clock R spot_name note = atomic (reserve_ticket_body clock R spot_name note)"

definition redeem_ticket_body :: "int \<Rightarrow> int \<Rightarrow> db \<Rightarrow> error + (int \<times> db)" where
  "redeem_ticket_body spot_id ticket_id d =
     (case filter (\<lambda>t. pticket_ticket_id t = ticket_id \<and> pticket_spot_id t = spot_id)
             (ptickets d) of
        [] \<Rightarrow> Inl (Exception (''No ticket issuance found for '' @ str_int ticket_id))
      | pticket # _ \<Rightarrow>
          let presentments = pticket_presentments pticket;
              pticket' = pticket\<lparr>pticket_presentments := pticket_presentments pticket + 1\<rparr>
          in Inr (presentments, PTicket_save pticket' d))"

definition redeem_ticket :: "int \<Rightarrow> int \<Rightarrow> db \<Rightarrow> (error + int) \<times> db" where
  "redeem_ticket spot_id ticket_id = atomic (redeem_ticket_body spot_id ticket_id)"

subsection \<open>Sequential use and the numbering of tickets\<close>

text \<open>
  A client that redeems the same ticket \<open>m\<close> times, one request after the other; each
  request is a transaction of its own.
\<close>

fun redeem_repeat :: "nat \<Rightarrow> int \<Rightarrow> int \<Rightarrow> db \<Rightarrow> (error + int) list \<times> db" where
  "redeem_repeat 0 spot_id ticket_id d = ([], d)"
| "redeem_repeat (Suc m) spot_id ticket_id d =
     (case redeem_ticket spot_id ticket_id d of
        (r, d') \<Rightarrow>
          (case redeem_repeat m spot_id ticket_id d' of
             (rs, d'') \<Rightarrow> (r # rs, d'')))"

text \<open>
  The tickets of a slot, in the order of their issuance, and the property that their
  serial numbers count up from 0 to the slot's \<open>reservations\<close> counter.
\<close>

definition tickets_of :: "int \<Rightarrow> db \<Rightarrow> PTicket list" where
  "tickets_of slot_id d = filter (\<lambda>t. pticket_slot_id t = slot_id) (ptickets d)"

definition serials_ok :: "db \<Rightarrow> bool" where
  "serials_ok d \<longleftrightarrow>
     list_all (\<lambda>s. 0 \<le> pslot_reservations s
                  \<and> map pticket_serial_number (tickets_of (pslot_id s) d)
                      = [0 .. pslot_reservations s - 1]) (pslots d)"

text \<open>
  What the constraints of the schema and the operations keep true of a database: ticket
  ids are unique, every ticket belongs to a slot of the slot table, and the serial
  numbers count the issuances of each slot.
\<close>

definition db_inv :: "db \<Rightarrow> bool" where
  "db_inv d \<longleftrightarrow>
     distinct (map pticket_ticket_id (ptickets d))
   \<and> set (map pticket_slot_id (ptickets d)) \<subseteq> set (map pslot_id (pslots d))
   \<and> serials_ok d"

text \<open>
  The row that a reservation inserts and the view that it returns, as
  \<open>reserve_ticket\<close> builds them from the chosen slot.
\<close>

definition ticket_row :: "halves \<Rightarrow> string option \<Rightarrow> int \<Rightarrow> PSlot \<Rightarrow> PTicket" where
  "ticket_row R note spot_id pslot =
     \<lparr>pticket_ticket_id = make_ticket_id R, pticket_slot_id = pslot_id pslot,
      pticket_spot_id = spot_id, pticket_presentments = 0, pticket_note = note,
      pticket_serial_number = pslot_reservations pslot\<rparr>"

definition ticket_view :: "halves \<Rightarrow> string \<Rightarrow> string option \<Rightarrow> int \<Rightarrow> PSlot \<Rightarrow> CTicket" where
  "ticket_view R spot_name note spot_id pslot =
     \<lparr>cticket_slot =
        \<lparr>cslot_start = CUnixTime (pslot_start pslot),
         cslot_end = (case pslot_end pslot of None \<Rightarrow> None
                      | Some e \<Rightarrow> if e = 0 then None else Some (CUnixTime e)),
         cslot_capacity = Some capacity_default,
         cslot_note = pslot_note pslot\<rparr>,
      cticket_spot_name = spot_name, cticket_spot_id = spot_id,
      cticket_ticket_id = make_ticket_id R, cticket_note = note\<rparr>"

subsection \<open>A database to compute on\<close>

definition concert :: PSpot where
  "concert = \<lparr>pspot_id = 7, pspot_name = ''Concert'', pspot_note = None\<rparr>"

definition evening :: PSlot where
  "evening =
     \<lparr>pslot_id = 11, pslot_spot_id = 7, pslot_start = 100, pslot_end = Some 200,
      pslot_capacity = 1, pslot_note = Some ''doors at 99'', pslot_reservations = 1\<rparr>"

definition first_ticket :: PTicket where
  "first_ticket =
     \<lparr>pticket_ticket_id = 5, pticket_slot_id = 11, pticket_spot_id = 7,
      pticket_presentments = 0, pticket_note = None, pticket_serial_number = 0\<rparr>"

definition concert_db :: db where
  "concert_db = \<lparr>pspots = [concert], pslots = [evening], ptickets = [first_ticket]\<rparr>"

definition epoch_slot :: PSlot where
  "epoch_slot =
     \<lparr>pslot_id = 12, pslot_spot_id = 7, pslot_start = 100, pslot_end = Some 0,
      pslot_capacity = 3, pslot_note = None, pslot_reservations = 0\<rparr>"

definition epoch_db :: db where
  "epoch_db = \<lparr>pspots = [concert], pslots = [epoch_slot], ptickets = []\<rparr>"

definition twin_db :: db where
  "twin_db = \<lparr>pspots = [concert, concert\<lparr>pspot_id := 8\<rparr>], pslots = [], ptickets = []\<rparr>"

definition short_slot :: CSlot where
  "short_slot = \<lparr>cslot_start = CUnixTime 100, cslot_end = None, cslot_capacity = Some 5,
                 cslot_note = None\<rparr>"

section \<open>Lemmas about the operations\<close>

lemma get_available_fst:
  "fst (get_available clock spot_id now d) =
     sort_key pslot_start
       (filter (\<lambda>s. pslot_reservations s \<le> pslot_capacity s \<and> pslot_spot_id s = spot_id
                   \<and> (case now of None \<Rightarrow> clock | Some n \<Rightarrow> n) \<le> pslot_start s) (pslots d))"
  by (simp add: get_available_def Let_def)

lemma get_available_snd: "snd (get_available clock spot_id now d) = d"
  by (simp add: get_available_def Let_def)

lemma get_available_member:
  "s \<in> set (fst (get_available clock spot_id now d)) \<longleftrightarrow>
     s \<in> set (pslots d) \<and> pslot_reservations s \<le> pslot_capacity s \<and> pslot_spot_id s = spot_id
       \<and> (case now of None \<Rightarrow> clock | Some n \<Rightarrow> n) \<le> pslot_start s"
  by (auto simp: get_available_fst)

lemma get_spot_id_one:
  "filter (\<lambda>s. pspot_name s = spot_name) (pspots d) = [spot] \<Longrightarrow>
     get_spot_id spot_name d = Inr (pspot_id spot, d)"
  by (simp add: get_spot_id_def)

lemma get_spot_id_InrD:
  "get_spot_id spot_name d = Inr (i, d') \<Longrightarrow>
     d' = d \<and> (\<exists>spot. filter (\<lambda>s. pspot_name s = spot_name) (pspots d) = [spot] \<and> i = pspot_id spot)"
  by (auto simp: get_spot_id_def Let_def length_Suc_conv split: if_splits)

lemma reserve_ticket_body_some:
  assumes "filter (\<lambda>s. pspot_name s = spot_name) (pspots d) = [spot]"
    and "fst (get_available clock (pspot_id spot) None d) = pslot # rest"
    and "make_ticket_id R \<notin> set (map pticket_ticket_id (ptickets d))"
  shows "reserve_ticket_body clock R spot_name note d =
     Inr (Some \<lparr>cticket_slot =
                  \<lparr>cslot_start = CUnixTime (pslot_start pslot),
                   cslot_end = (case pslot_end pslot of None \<Rightarrow> None
                                | Some e \<Rightarrow> if e = 0 then None else Some (CUnixTime e)),
                   cslot_capacity = Some capacity_default,
                   cslot_note = pslot_note pslot\<rparr>,
                cticket_spot_name = spot_name, cticket_spot_id = pspot_id spot,
                cticket_ticket_id = make_ticket_id R, cticket_note = note\<rparr>,
          PSlot_save (pslot\<lparr>pslot_reservations := pslot_reservations pslot + 1\<rparr>)
            (d\<lparr>ptickets := ptickets d @ [ticket_row R note (pspot_id spot) pslot]\<rparr>))"
proof -
  have av: "get_available clock (pspot_id spot) None d = (pslot # rest, d)"
    using assms(2) get_available_snd [of clock "pspot_id spot" None d]
    by (metis prod.collapse)
  show ?thesis
    using assms(3)
    by (simp add: reserve_ticket_body_def get_spot_id_one [OF assms(1)] av PTicket_create_def
        CSlot_init_def capacity_field_def ticket_row_def Let_def)
qed


lemma reserve_ticket_some:
  assumes "filter (\<lambda>s. pspot_name s = spot_name) (pspots d) = [spot]"
    and "fst (get_available clock (pspot_id spot) None d) = pslot # rest"
    and "make_ticket_id R \<notin> set (map pticket_ticket_id (ptickets d))"
  shows "reserve_ticket clock R spot_name note d =
     (Inr (Some (ticket_view R spot_name note (pspot_id spot) pslot)),
      PSlot_save (pslot\<lparr>pslot_reservations := pslot_reservations pslot + 1\<rparr>)
            (d\<lparr>ptickets := ptickets d @ [ticket_row R note (pspot_id spot) pslot]\<rparr>))"
  by (simp add: reserve_ticket_def atomic_def reserve_ticket_body_some [OF assms] ticket_view_def)

lemma reserve_ticket_body_SomeD:
  assumes "reserve_ticket_body clock R spot_name note d = Inr (Some cticket, d')"
  shows "\<exists>spot pslot rest.
           filter (\<lambda>s. pspot_name s = spot_name) (pspots d) = [spot]
         \<and> fst (get_available clock (pspot_id spot) None d) = pslot # rest
         \<and> make_ticket_id R \<notin> set (map pticket_ticket_id (ptickets d))
         \<and> cticket = ticket_view R spot_name note (pspot_id spot) pslot
         \<and> d' = PSlot_save (pslot\<lparr>pslot_reservations := pslot_reservations pslot + 1\<rparr>)
                  (d\<lparr>ptickets := ptickets d @ [ticket_row R note (pspot_id spot) pslot]\<rparr>)"
proof -
  from assms obtain i d0 where g: "get_spot_id spot_name d = Inr (i, d0)"
    by (auto simp: reserve_ticket_body_def split: sum.splits)
  from get_spot_id_InrD [OF g] obtain spot where
    d0: "d0 = d" and sp: "filter (\<lambda>s. pspot_name s = spot_name) (pspots d) = [spot]"
    and i: "i = pspot_id spot" by blast
  obtain av where av: "get_available clock (pspot_id spot) None d = (av, d)"
    using get_available_snd [of clock "pspot_id spot" None d] by (metis prod.collapse)
  have ne: "av \<noteq> []"
    using assms by (auto simp: reserve_ticket_body_def g d0 i av)
  then obtain pslot rest where avc: "av = pslot # rest" by (cases av) auto
  have fr: "make_ticket_id R \<notin> set (map pticket_ticket_id (ptickets d))"
    using assms
    by (auto simp: reserve_ticket_body_def g d0 i av avc PTicket_create_def Let_def
        split: if_splits)
  have f: "fst (get_available clock (pspot_id spot) None d) = pslot # rest"
    by (simp add: av avc)
  from reserve_ticket_body_some [OF sp f fr, of "note"] assms
  have "cticket = ticket_view R spot_name note (pspot_id spot) pslot
      \<and> d' = PSlot_save (pslot\<lparr>pslot_reservations := pslot_reservations pslot + 1\<rparr>)
                  (d\<lparr>ptickets := ptickets d @ [ticket_row R note (pspot_id spot) pslot]\<rparr>)"
    by (simp add: ticket_view_def)
  with sp f fr show ?thesis by blast
qed

lemma reserve_ticket_SomeD:
  assumes "reserve_ticket clock R spot_name note d = (Inr (Some cticket), d')"
  shows "\<exists>spot pslot rest.
           filter (\<lambda>s. pspot_name s = spot_name) (pspots d) = [spot]
         \<and> fst (get_available clock (pspot_id spot) None d) = pslot # rest
         \<and> make_ticket_id R \<notin> set (map pticket_ticket_id (ptickets d))
         \<and> cticket = ticket_view R spot_name note (pspot_id spot) pslot
         \<and> d' = PSlot_save (pslot\<lparr>pslot_reservations := pslot_reservations pslot + 1\<rparr>)
                  (d\<lparr>ptickets := ptickets d @ [ticket_row R note (pspot_id spot) pslot]\<rparr>)"
proof -
  from assms have "reserve_ticket_body clock R spot_name note d = Inr (Some cticket, d')"
    by (auto simp: reserve_ticket_def atomic_def split: sum.splits)
  then show ?thesis by (rule reserve_ticket_body_SomeD)
qed

lemma reserve_ticket_none:
  assumes "filter (\<lambda>s. pspot_name s = spot_name) (pspots d) = [spot]"
    and "fst (get_available clock (pspot_id spot) None d) = []"
  shows "reserve_ticket clock R spot_name note d = (Inr None, d)"
proof -
  have av: "get_available clock (pspot_id spot) None d = ([], d)"
    using assms(2) get_available_snd [of clock "pspot_id spot" None d]
    by (metis prod.collapse)
  show ?thesis
    by (simp add: reserve_ticket_def atomic_def reserve_ticket_body_def
        get_spot_id_one [OF assms(1)] av)
qed

lemma pslots_after:
  "pslots (PSlot_save p (d\<lparr>ptickets := ts\<rparr>)) =
     map (\<lambda>x. if pslot_id x = pslot_id p then p else x) (pslots d)"
  by (simp add: PSlot_save_def)

lemma pspots_after: "pspots (PSlot_save p (d\<lparr>ptickets := ts\<rparr>)) = pspots d"
  by (simp add: PSlot_save_def)

lemma ptickets_after: "ptickets (PSlot_save p (d\<lparr>ptickets := ts\<rparr>)) = ts"
  by (simp add: PSlot_save_def)

lemma saved_slot:
  assumes "s \<in> set (map (\<lambda>x. if pslot_id x = pslot_id p then p else x) xs)"
  shows "s = p \<or> (s \<in> set xs \<and> pslot_id s \<noteq> pslot_id p)"
  using assms by auto

lemma tickets_of_after:
  "tickets_of j (PSlot_save p (d\<lparr>ptickets := ptickets d @ [t]\<rparr>)) =
     tickets_of j d @ (if pticket_slot_id t = j then [t] else [])"
  by (simp add: tickets_of_def PSlot_save_def)

lemma available_in_table:
  "fst (get_available clock spot_id now d) = pslot # rest \<Longrightarrow> pslot \<in> set (pslots d)"
  using get_available_member [of pslot clock spot_id now d] by simp

lemma serials_ok_member:
  "serials_ok d \<Longrightarrow> s \<in> set (pslots d) \<Longrightarrow>
     0 \<le> pslot_reservations s
   \<and> map pticket_serial_number (tickets_of (pslot_id s) d) = [0 .. pslot_reservations s - 1]"
  by (simp add: serials_ok_def list_all_iff)

lemma serials_ok_after:
  assumes ok: "serials_ok d" and mem: "pslot \<in> set (pslots d)"
  shows "serials_ok
           (PSlot_save (pslot\<lparr>pslot_reservations := pslot_reservations pslot + 1\<rparr>)
              (d\<lparr>ptickets := ptickets d @ [ticket_row R note spot_id pslot]\<rparr>))"
proof -
  let ?p = "pslot\<lparr>pslot_reservations := pslot_reservations pslot + 1\<rparr>"
  let ?t = "ticket_row R note spot_id pslot"
  let ?d' = "PSlot_save ?p (d\<lparr>ptickets := ptickets d @ [?t]\<rparr>)"
  from serials_ok_member [OF ok mem]
  have r0: "0 \<le> pslot_reservations pslot"
    and ser: "map pticket_serial_number (tickets_of (pslot_id pslot) d)
                = [0 .. pslot_reservations pslot - 1]" by simp_all
  have tid: "pticket_slot_id ?t = pslot_id pslot"
    and tser: "pticket_serial_number ?t = pslot_reservations pslot"
    by (simp_all add: ticket_row_def)
  have new: "0 \<le> pslot_reservations ?p
     \<and> map pticket_serial_number (tickets_of (pslot_id ?p) ?d') = [0 .. pslot_reservations ?p - 1]"
    using r0 ser tid tser upto_rec2 [of 0 "pslot_reservations pslot"]
    by (simp add: tickets_of_after)
  have old: "0 \<le> pslot_reservations x
     \<and> map pticket_serial_number (tickets_of (pslot_id x) ?d') = [0 .. pslot_reservations x - 1]"
    if "x \<in> set (pslots d)" and "pslot_id x \<noteq> pslot_id pslot" for x
    using serials_ok_member [OF ok that(1)] that(2) tid by (simp add: tickets_of_after)
  have "0 \<le> pslot_reservations s
     \<and> map pticket_serial_number (tickets_of (pslot_id s) ?d') = [0 .. pslot_reservations s - 1]"
    if "s \<in> set (pslots ?d')" for s
  proof -
    from that have "s \<in> set (map (\<lambda>x. if pslot_id x = pslot_id ?p then ?p else x) (pslots d))"
      by (simp only: pslots_after)
    from saved_slot [OF this] have "s = ?p \<or> (s \<in> set (pslots d) \<and> pslot_id s \<noteq> pslot_id pslot)"
      by simp
    then show ?thesis using new old by blast
  qed
  then show ?thesis unfolding serials_ok_def list_all_iff by blast
qed

lemma saved_image:
  assumes "pslot \<in> set xs" and "pslot_id p = pslot_id pslot"
  shows "pslot_reservations `
           {s \<in> set (map (\<lambda>x. if pslot_id x = pslot_id p then p else x) xs). pslot_id s = pslot_id pslot}
         = {pslot_reservations p}"
proof -
  have "{s \<in> set (map (\<lambda>x. if pslot_id x = pslot_id p then p else x) xs). pslot_id s = pslot_id pslot}
        = {p}"
    using assms by (auto simp: image_iff)
  then show ?thesis by simp
qed

lemma make_slot_InrD:
  "make_slot R H c spot_id d = Inr d' \<Longrightarrow>
     \<exists>row. pslots d' = pslots d @ [row] \<and> cslot_capacity c = Some (pslot_capacity row)"
  by (auto simp: make_slot_def PSlot_create_def split: option.splits if_splits)

lemma first_match_after_save:
  assumes "filter (\<lambda>x. pticket_ticket_id x = k \<and> pticket_spot_id x = s) xs = t # rest"
    and "pticket_ticket_id t' = k" and "pticket_spot_id t' = s"
  shows "\<exists>rest'. filter (\<lambda>x. pticket_ticket_id x = k \<and> pticket_spot_id x = s)
                    (map (\<lambda>x. if pticket_ticket_id x = pticket_ticket_id t' then t' else x) xs)
                  = t' # rest'"
  using assms
proof (induction xs)
  case Nil
  then show ?case by simp
next
  case (Cons x xs)
  show ?case
  proof (cases "pticket_ticket_id x = k")
    case True
    with Cons.prems show ?thesis by simp
  next
    case False
    with Cons.prems have "filter (\<lambda>x. pticket_ticket_id x = k \<and> pticket_spot_id x = s) xs = t # rest"
      by simp
    from Cons.IH [OF this Cons.prems(2,3)] False Cons.prems(2) show ?thesis by simp
  qed
qed

lemma redeem_ticket_found:
  assumes "filter (\<lambda>t. pticket_ticket_id t = ticket_id \<and> pticket_spot_id t = spot_id) (ptickets d)
             = pticket # rest"
  shows "redeem_ticket spot_id ticket_id d
           = (Inr (pticket_presentments pticket),
              PTicket_save (pticket\<lparr>pticket_presentments := pticket_presentments pticket + 1\<rparr>) d)"
  using assms by (simp add: redeem_ticket_def atomic_def redeem_ticket_body_def Let_def)

lemma matching_row:
  assumes "filter (\<lambda>t. pticket_ticket_id t = ticket_id \<and> pticket_spot_id t = spot_id) xs
             = pticket # rest"
  shows "pticket_ticket_id pticket = ticket_id \<and> pticket_spot_id pticket = spot_id"
proof -
  have "pticket \<in> set (filter (\<lambda>t. pticket_ticket_id t = ticket_id \<and> pticket_spot_id t = spot_id) xs)"
    by (simp add: assms)
  then show ?thesis by simp
qed

lemma redeem_ticket_next:
  assumes "filter (\<lambda>t. pticket_ticket_id t = ticket_id \<and> pticket_spot_id t = spot_id) (ptickets d)
             = pticket # rest"
  shows "\<exists>rest'. filter (\<lambda>t. pticket_ticket_id t = ticket_id \<and> pticket_spot_id t = spot_id)
                    (ptickets (snd (redeem_ticket spot_id ticket_id d)))
                  = pticket\<lparr>pticket_presentments := pticket_presentments pticket + 1\<rparr> # rest'"
proof -
  let ?t' = "pticket\<lparr>pticket_presentments := pticket_presentments pticket + 1\<rparr>"
  from matching_row [OF assms]
  have k: "pticket_ticket_id ?t' = ticket_id" and s: "pticket_spot_id ?t' = spot_id" by simp_all
  from first_match_after_save [OF assms k s] show ?thesis
    by (simp add: redeem_ticket_found [OF assms] PTicket_save_def)
qed

lemma redeem_repeat_counts:
  assumes "filter (\<lambda>t. pticket_ticket_id t = ticket_id \<and> pticket_spot_id t = spot_id) (ptickets d)
             = pticket # rest"
  shows "fst (redeem_repeat m spot_id ticket_id d)
           = map (\<lambda>k. Inr (pticket_presentments pticket + int k)) [0..<m]"
  using assms
proof (induction m arbitrary: d pticket rest)
  case 0
  then show ?case by simp
next
  case (Suc m)
  let ?t' = "pticket\<lparr>pticket_presentments := pticket_presentments pticket + 1\<rparr>"
  let ?d' = "PTicket_save ?t' d"
  have r: "redeem_ticket spot_id ticket_id d = (Inr (pticket_presentments pticket), ?d')"
    by (rule redeem_ticket_found [OF Suc.prems])
  from redeem_ticket_next [OF Suc.prems] obtain rest' where
    n: "filter (\<lambda>t. pticket_ticket_id t = ticket_id \<and> pticket_spot_id t = spot_id) (ptickets ?d')
          = ?t' # rest'" by (auto simp: r)
  have ih: "fst (redeem_repeat m spot_id ticket_id ?d')
              = map (\<lambda>k. Inr (pticket_presentments pticket + 1 + int k)) [0..<m]"
    using Suc.IH [OF n] by simp
  have "fst (redeem_repeat (Suc m) spot_id ticket_id d)
          = Inr (pticket_presentments pticket) # fst (redeem_repeat m spot_id ticket_id ?d')"
    by (simp add: r split_beta)
  also have "\<dots> = map (\<lambda>k. Inr (pticket_presentments pticket + int k)) (0 # map Suc [0..<m])"
    by (simp add: ih add.assoc)
  also have "0 # map Suc [0..<m] = [0..<Suc m]"
    by (simp add: map_Suc_upt upt_conv_Cons del: upt_Suc)
  finally show ?case .
qed

subsection \<open>The invariant of the database\<close>

text \<open>
  The empty database satisfies \<open>db_inv\<close>, and each of the three endpoints keeps it,
  whatever it returns.
\<close>

lemma issued_count:
  assumes ok: "serials_ok d" and mem: "pslot \<in> set (pslots d)"
  shows "int (length (tickets_of (pslot_id pslot)
            (PSlot_save p (d\<lparr>ptickets := ptickets d @ [ticket_row R note spot_id pslot]\<rparr>))))
         = pslot_reservations pslot + 1"
proof -
  from serials_ok_member [OF ok mem]
  have r0: "0 \<le> pslot_reservations pslot"
    and ser: "map pticket_serial_number (tickets_of (pslot_id pslot) d)
                = [0 .. pslot_reservations pslot - 1]" by simp_all
  have "length (tickets_of (pslot_id pslot) d)
          = length (map pticket_serial_number (tickets_of (pslot_id pslot) d))" by simp
  also have "\<dots> = nat (pslot_reservations pslot)" by (simp add: ser)
  finally have "int (length (tickets_of (pslot_id pslot) d)) = pslot_reservations pslot"
    using r0 by simp
  then show ?thesis by (simp add: tickets_of_after ticket_row_def)
qed

lemma serials_ok_empty: "serials_ok empty_db"
  by (simp add: serials_ok_def empty_db_def)

lemma tickets_of_redeem:
  assumes dist: "distinct (map pticket_ticket_id (ptickets d))"
    and t: "t \<in> set (ptickets d)"
  shows "map pticket_serial_number
           (tickets_of j (PTicket_save (t\<lparr>pticket_presentments := n\<rparr>) d))
         = map pticket_serial_number (tickets_of j d)"
proof -
  let ?f = "\<lambda>x. if pticket_ticket_id x = pticket_ticket_id (t\<lparr>pticket_presentments := n\<rparr>)
                 then t\<lparr>pticket_presentments := n\<rparr> else x"
  have same: "x = t" if "x \<in> set (ptickets d)" "pticket_ticket_id x = pticket_ticket_id t" for x
    using dist t that by (meson distinct_map inj_onD)
  have f: "pticket_slot_id (?f x) = pticket_slot_id x
         \<and> pticket_serial_number (?f x) = pticket_serial_number x"
    if "x \<in> set (ptickets d)" for x
    using same [OF that] by auto
  have "map pticket_serial_number (filter (\<lambda>x. pticket_slot_id x = j) (map ?f xs))
      = map pticket_serial_number (filter (\<lambda>x. pticket_slot_id x = j) xs)"
    if "set xs \<subseteq> set (ptickets d)" for xs
    using that
  proof (induction xs)
    case Nil
    then show ?case by simp
  next
    case (Cons x xs)
    then have "x \<in> set (ptickets d)" by simp
    from f [OF this] Cons show ?case by simp
  qed
  from this [of "ptickets d"] show ?thesis
    by (simp add: tickets_of_def PTicket_save_def)
qed

lemma serials_ok_redeem:
  assumes ok: "serials_ok d" and dist: "distinct (map pticket_ticket_id (ptickets d))"
  shows "serials_ok (snd (redeem_ticket spot_id ticket_id d))"
proof (cases "filter (\<lambda>t. pticket_ticket_id t = ticket_id \<and> pticket_spot_id t = spot_id) (ptickets d)")
  case Nil
  then have "snd (redeem_ticket spot_id ticket_id d) = d"
    by (simp add: redeem_ticket_def atomic_def redeem_ticket_body_def)
  with ok show ?thesis by simp
next
  case (Cons t rest)
  have "t \<in> set (filter (\<lambda>t. pticket_ticket_id t = ticket_id \<and> pticket_spot_id t = spot_id) (ptickets d))"
    by (simp add: Cons)
  then have t: "t \<in> set (ptickets d)" by simp
  have "pslots (PTicket_save p d) = pslots d" for p by (simp add: PTicket_save_def)
  with ok tickets_of_redeem [OF dist t] show ?thesis
    by (simp add: redeem_ticket_found [OF Cons] serials_ok_def)
qed

lemma db_inv_empty: "db_inv empty_db"
  by (simp add: db_inv_def serials_ok_empty) (simp add: empty_db_def)

lemma reserve_ticket_cases:
  assumes "reserve_ticket clock R spot_name note d = (res, d')"
  shows "d' = d \<or> (\<exists>cticket. res = Inr (Some cticket))"
proof (cases "reserve_ticket_body clock R spot_name note d")
  case (Inl e)
  with assms show ?thesis by (simp add: reserve_ticket_def atomic_def)
next
  case (Inr p)
  obtain v d'' where p: "p = (v, d'')" by (cases p)
  show ?thesis
  proof (cases v)
    case None
    with Inr p have "d'' = d"
      by (auto simp: reserve_ticket_body_def get_spot_id_def get_available_def Let_def
          split: sum.splits if_splits)
    with assms Inr p show ?thesis by (simp add: reserve_ticket_def atomic_def)
  next
    case (Some c)
    with assms Inr p show ?thesis by (auto simp: reserve_ticket_def atomic_def)
  qed
qed

lemma db_inv_reserve:
  assumes inv: "db_inv d"
  shows "db_inv (snd (reserve_ticket clock R spot_name note d))"
proof -
  obtain res d' where r: "reserve_ticket clock R spot_name note d = (res, d')"
    by (cases "reserve_ticket clock R spot_name note d")
  from reserve_ticket_cases [OF r] show ?thesis
  proof
    assume "d' = d"
    with inv r show ?thesis by simp
  next
    assume "\<exists>cticket. res = Inr (Some cticket)"
    then obtain cticket where "res = Inr (Some cticket)" ..
    with r have r': "reserve_ticket clock R spot_name note d = (Inr (Some cticket), d')" by simp
    from reserve_ticket_SomeD [OF r'] obtain spot pslot rest where
      sp: "filter (\<lambda>s. pspot_name s = spot_name) (pspots d) = [spot]"
      and fr: "make_ticket_id R \<notin> set (map pticket_ticket_id (ptickets d))"
      and av: "fst (get_available clock (pspot_id spot) None d) = pslot # rest"
      and ct: "cticket = ticket_view R spot_name note (pspot_id spot) pslot"
      and d': "d' = PSlot_save (pslot\<lparr>pslot_reservations := pslot_reservations pslot + 1\<rparr>)
                  (d\<lparr>ptickets := ptickets d @ [ticket_row R note (pspot_id spot) pslot]\<rparr>)"
      by (elim exE conjE) (rule that; assumption)
    have mem: "pslot \<in> set (pslots d)" by (rule available_in_table [OF av])
    have ids: "map pslot_id (pslots d') = map pslot_id (pslots d)"
      by (simp add: d' pslots_after)
    have 1: "distinct (map pticket_ticket_id (ptickets d'))"
      using inv fr by (simp add: d' ptickets_after db_inv_def ticket_row_def)
    have 2: "set (map pticket_slot_id (ptickets d')) \<subseteq> set (map pslot_id (pslots d'))"
      using inv mem unfolding ids by (auto simp: d' ptickets_after db_inv_def ticket_row_def)
    have 3: "serials_ok d'"
      using inv serials_ok_after [OF _ mem] by (simp add: d' db_inv_def)
    from 1 2 3 show ?thesis by (simp add: r db_inv_def)
  qed
qed

lemma db_inv_redeem:
  assumes inv: "db_inv d"
  shows "db_inv (snd (redeem_ticket spot_id ticket_id d))"
proof (cases "filter (\<lambda>t. pticket_ticket_id t = ticket_id \<and> pticket_spot_id t = spot_id) (ptickets d)")
  case Nil
  then have "snd (redeem_ticket spot_id ticket_id d) = d"
    by (simp add: redeem_ticket_def atomic_def redeem_ticket_body_def)
  with inv show ?thesis by simp
next
  case (Cons t rest)
  let ?t' = "t\<lparr>pticket_presentments := pticket_presentments t + 1\<rparr>"
  let ?f = "\<lambda>x. if pticket_ticket_id x = pticket_ticket_id ?t' then ?t' else x"
  have "t \<in> set (filter (\<lambda>t. pticket_ticket_id t = ticket_id \<and> pticket_spot_id t = spot_id) (ptickets d))"
    by (simp add: Cons)
  then have t: "t \<in> set (ptickets d)" by simp
  from inv have dist: "distinct (map pticket_ticket_id (ptickets d))" by (simp add: db_inv_def)
  have same: "x = t" if "x \<in> set (ptickets d)" "pticket_ticket_id x = pticket_ticket_id t" for x
    using dist t that by (meson distinct_map inj_onD)
  have k: "map pticket_ticket_id (ptickets (PTicket_save ?t' d))
             = map pticket_ticket_id (ptickets d)"
    by (auto simp: PTicket_save_def)
  have s: "map pticket_slot_id (ptickets (PTicket_save ?t' d)) = map pticket_slot_id (ptickets d)"
    using same by (auto simp: PTicket_save_def)
  have l: "pslots (PTicket_save ?t' d) = pslots d" by (simp add: PTicket_save_def)
  have 1: "distinct (map pticket_ticket_id (ptickets (PTicket_save ?t' d)))"
    unfolding k by (rule dist)
  have 2: "set (map pticket_slot_id (ptickets (PTicket_save ?t' d)))
             \<subseteq> set (map pslot_id (pslots (PTicket_save ?t' d)))"
    unfolding s l using inv by (simp add: db_inv_def)
  have 3: "serials_ok (PTicket_save ?t' d)"
    using serials_ok_redeem [OF _ dist, of spot_id ticket_id] inv
    by (simp add: redeem_ticket_found [OF Cons] db_inv_def)
  from 1 2 3 show ?thesis by (simp add: redeem_ticket_found [OF Cons] db_inv_def)
qed

lemma db_inv_make_slot:
  assumes inv: "db_inv d" and m: "make_slot R H cslot spot_id d = Inr d'"
  shows "db_inv d'"
proof -
  from m obtain c where c: "cslot_capacity cslot = Some c"
    by (auto simp: make_slot_def split: option.splits)
  define r where "r = \<lparr>pslot_id = make_id R H, pslot_spot_id = spot_id,
             pslot_start = seconds (cslot_start cslot),
             pslot_end = (case cslot_end cslot of None \<Rightarrow> None | Some t \<Rightarrow> Some (seconds t)),
             pslot_capacity = c, pslot_note = cslot_note cslot, pslot_reservations = 0\<rparr>"
  from m c have fresh: "pslot_id r \<notin> set (map pslot_id (pslots d))"
    and d': "d' = d\<lparr>pslots := pslots d @ [r]\<rparr>"
    by (auto simp: make_slot_def PSlot_create_def r_def split: if_splits)
  from inv have sub: "set (map pticket_slot_id (ptickets d)) \<subseteq> set (map pslot_id (pslots d))"
    by (simp add: db_inv_def)
  have "pticket_slot_id x \<noteq> pslot_id r" if "x \<in> set (ptickets d)" for x
  proof
    assume "pticket_slot_id x = pslot_id r"
    with that have "pslot_id r \<in> set (map pticket_slot_id (ptickets d))" by force
    with sub fresh show False by blast
  qed
  then have none: "tickets_of (pslot_id r) d = []"
    by (simp add: tickets_of_def filter_empty_conv)
  have t: "tickets_of j (d\<lparr>pslots := xs\<rparr>) = tickets_of j d" for j xs
    by (simp add: tickets_of_def)
  have "serials_ok d'"
    using inv none by (simp add: serials_ok_def db_inv_def d' t r_def)
  with inv show ?thesis by (auto simp: db_inv_def d')
qed

lemma db_inv_make_slots:
  "db_inv d \<Longrightarrow> make_slots rnd hslot i cslots spot_id d = Inr d' \<Longrightarrow> db_inv d'"
proof (induction cslots arbitrary: i d)
  case Nil
  then show ?case by simp
next
  case (Cons c cs)
  from Cons.prems(2) obtain d1 where
    1: "make_slot (rnd i) (hslot c) c spot_id d = Inr d1"
    and 2: "make_slots rnd hslot (Suc i) cs spot_id d1 = Inr d'"
    by (auto split: sum.splits)
  from Cons.IH [OF db_inv_make_slot [OF Cons.prems(1) 1] 2] show ?case .
qed

lemma db_inv_make_spot:
  assumes inv: "db_inv d"
  shows "db_inv (snd (make_spot rnd hspot hslot cspot d))"
proof (cases "make_spot_body rnd hspot hslot cspot d")
  case (Inl e)
  with inv show ?thesis by (simp add: make_spot_def atomic_def)
next
  case (Inr p)
  then obtain d1 d2 where
    1: "PSpot_create \<lparr>pspot_id = make_id (rnd 0) (hspot cspot), pspot_name = cspot_name cspot,
                      pspot_note = cspot_note cspot\<rparr> d = Inr d1"
    and 2: "make_slots rnd hslot 1 (cspot_slots cspot) (make_id (rnd 0) (hspot cspot)) d1 = Inr d2"
    and p: "p = ((), d2)"
    by (auto simp: make_spot_body_def Let_def split: sum.splits)
  from 1 have "pslots d1 = pslots d" and "ptickets d1 = ptickets d"
    by (auto simp: PSpot_create_def split: if_splits)
  with inv have "db_inv d1"
    by (simp add: db_inv_def serials_ok_def tickets_of_def)
  from db_inv_make_slots [OF this 2] Inr p show ?thesis
    by (simp add: make_spot_def atomic_def)
qed

section \<open>The claims\<close>

text \<open>
  C1. When the earliest available slot of a spot has \<open>reservations = capacity\<close>, a
  reservation against the spot succeeds (the ticket id drawn being new, as the primary key
  of the ticket table demands), and afterwards no availability listing contains the slot.
  When it was the only available slot, every later reservation against the spot returns
  the empty result: the slot was issued exactly once more. In a database whose serial
  numbers count the issuances (\<open>serials_ok\<close>), the slot then has \<open>capacity + 1\<close>
  tickets.
\<close>

theorem reserve_at_capacity:
  assumes spot: "filter (\<lambda>s. pspot_name s = spot_name) (pspots d) = [spot]"
    and av: "fst (get_available clock (pspot_id spot) None d) = pslot # rest"
    and full: "pslot_reservations pslot = pslot_capacity pslot"
    and fresh: "make_ticket_id R \<notin> set (map pticket_ticket_id (ptickets d))"
  shows "\<exists>cticket d'.
           reserve_ticket clock R spot_name note d = (Inr (Some cticket), d')
         \<and> (\<forall>clock' spot_id' now'.
              pslot_id pslot \<notin> set (map pslot_id (fst (get_available clock' spot_id' now' d'))))
         \<and> (rest = [] \<longrightarrow>
              (\<forall>clock' R' note'. clock \<le> clock' \<longrightarrow>
                 reserve_ticket clock' R' spot_name note' d' = (Inr None, d')))
         \<and> (serials_ok d \<longrightarrow>
              int (length (tickets_of (pslot_id pslot) d')) = pslot_capacity pslot + 1)"
proof -
  define p where "p = pslot\<lparr>pslot_reservations := pslot_reservations pslot + 1\<rparr>"
  define d' where
    "d' = PSlot_save p (d\<lparr>ptickets := ptickets d @ [ticket_row R note (pspot_id spot) pslot]\<rparr>)"
  have res: "reserve_ticket clock R spot_name note d =
               (Inr (Some (ticket_view R spot_name note (pspot_id spot) pslot)), d')"
    unfolding d'_def p_def by (rule reserve_ticket_some [OF spot av fresh])
  have pid: "pslot_id p = pslot_id pslot" and pfull: "\<not> pslot_reservations p \<le> pslot_capacity p"
    using full by (simp_all add: p_def)
  have rows: "pslots d' = map (\<lambda>x. if pslot_id x = pslot_id p then p else x) (pslots d)"
    unfolding d'_def by (rule pslots_after)
  have gone: "pslot_id pslot \<notin> set (map pslot_id (fst (get_available clock' spot_id' now' d')))"
    for clock' spot_id' now'
  proof
    assume "pslot_id pslot \<in> set (map pslot_id (fst (get_available clock' spot_id' now' d')))"
    then obtain s where s: "s \<in> set (fst (get_available clock' spot_id' now' d'))"
      and sid: "pslot_id s = pslot_id pslot" by auto
    from s have "s \<in> set (pslots d')" and ok: "pslot_reservations s \<le> pslot_capacity s"
      by (simp_all add: get_available_member)
    with rows saved_slot [of s p "pslots d"] sid pid have "s = p" by auto
    with ok pfull show False by simp
  qed
  have last: "reserve_ticket clock' R' spot_name note' d' = (Inr None, d')"
    if "rest = []" and le: "clock \<le> clock'" for clock' R' note'
  proof -
    have sp': "filter (\<lambda>s. pspot_name s = spot_name) (pspots d') = [spot]"
      unfolding d'_def by (simp add: pspots_after spot)
    have "fst (get_available clock' (pspot_id spot) None d') = []"
    proof (rule ccontr)
      assume "fst (get_available clock' (pspot_id spot) None d') \<noteq> []"
      then obtain s where s: "s \<in> set (fst (get_available clock' (pspot_id spot) None d'))"
        by (cases "fst (get_available clock' (pspot_id spot) None d')") auto
      then have m: "s \<in> set (pslots d')" "pslot_reservations s \<le> pslot_capacity s"
        "pslot_spot_id s = pspot_id spot" "clock' \<le> pslot_start s"
        by (simp_all add: get_available_member)
      from gone [of clock' "pspot_id spot" None] s have ne: "pslot_id s \<noteq> pslot_id pslot"
        by (metis image_eqI set_map)
      with m(1) rows saved_slot [of s p "pslots d"] pid have "s \<in> set (pslots d)" by auto
      with m le have "s \<in> set (fst (get_available clock (pspot_id spot) None d))"
        by (simp add: get_available_member)
      with av \<open>rest = []\<close> have "s = pslot" by simp
      with ne show False by simp
    qed
    from reserve_ticket_none [OF sp' this] show ?thesis .
  qed
  have count: "int (length (tickets_of (pslot_id pslot) d')) = pslot_capacity pslot + 1"
    if "serials_ok d"
    unfolding d'_def
    using issued_count [OF that available_in_table [OF av]] full by simp
  from res gone last count show ?thesis by blast
qed

text \<open>
  The database \<open>concert_db\<close> has one slot of capacity 1 with one ticket issued: the
  second reservation succeeds, the third returns the empty result.
\<close>

theorem reserve_at_capacity_witness:
  "filter (\<lambda>s. pspot_name s = ''Concert'') (pspots concert_db) = [concert]
   \<and> fst (get_available 50 (pspot_id concert) None concert_db) = [evening]
   \<and> pslot_reservations evening = pslot_capacity evening
   \<and> make_ticket_id (1, 2) \<notin> set (map pticket_ticket_id (ptickets concert_db))
   \<and> (\<exists>cticket d'.
         reserve_ticket 50 (1, 2) ''Concert'' None concert_db = (Inr (Some cticket), d')
       \<and> pslot_id evening \<notin> set (map pslot_id (fst (get_available 60 7 None d')))
       \<and> reserve_ticket 60 (3, 4) ''Concert'' None d' = (Inr None, d')
       \<and> int (length (tickets_of (pslot_id evening) d')) = pslot_capacity evening + 1)"
proof -
  have h1: "filter (\<lambda>s. pspot_name s = ''Concert'') (pspots concert_db) = [concert]"
    by (simp add: concert_db_def concert_def)
  have h2: "fst (get_available 50 (pspot_id concert) None concert_db) = [evening]"
    by (simp add: get_available_def concert_db_def concert_def evening_def)
  have h3: "pslot_reservations evening = pslot_capacity evening"
    by (simp add: evening_def)
  have h4: "make_ticket_id (1, 2) \<notin> set (map pticket_ticket_id (ptickets concert_db))"
    by (simp add: make_ticket_id_def concert_db_def first_ticket_def)
  from reserve_at_capacity [OF h1 h2 h3 h4, of "None"]
  obtain cticket d' where
    "reserve_ticket 50 (1, 2) ''Concert'' None concert_db = (Inr (Some cticket), d')"
    "\<forall>clock' spot_id' now'.
        pslot_id evening \<notin> set (map pslot_id (fst (get_available clock' spot_id' now' d')))"
    "\<forall>clock' R' note'. (50::int) \<le> clock' \<longrightarrow>
        reserve_ticket clock' R' ''Concert'' note' d' = (Inr None, d')"
    "serials_ok concert_db \<longrightarrow>
        int (length (tickets_of (pslot_id evening) d')) = pslot_capacity evening + 1"
    by auto
  moreover have "serials_ok concert_db"
    by (simp add: serials_ok_def tickets_of_def concert_db_def evening_def first_ticket_def)
  ultimately
  have "reserve_ticket 50 (1, 2) ''Concert'' None concert_db = (Inr (Some cticket), d')
       \<and> pslot_id evening \<notin> set (map pslot_id (fst (get_available 60 7 None d')))
       \<and> reserve_ticket 60 (3, 4) ''Concert'' None d' = (Inr None, d')
       \<and> int (length (tickets_of (pslot_id evening) d')) = pslot_capacity evening + 1"
    by simp
  with h1 h2 h3 h4 show ?thesis by blast
qed

text \<open>
  C2. For every \<open>spot_id\<close> and \<open>now\<close>, \<open>get_available\<close> returns exactly the rows of the
  slot table with that \<open>spot_id\<close>, \<open>reservations \<le> capacity\<close> and \<open>start \<ge> now\<close> (each as often
  as the table holds it), in ascending order of \<open>start\<close>, and leaves the database as it
  was.
\<close>

theorem get_available_exact:
  "mset (fst (get_available clock spot_id now d)) =
     mset (filter (\<lambda>s. pslot_spot_id s = spot_id
                      \<and> pslot_reservations s \<le> pslot_capacity s
                      \<and> pslot_start s \<ge> (case now of None \<Rightarrow> clock | Some n \<Rightarrow> n)) (pslots d))
   \<and> sorted (map pslot_start (fst (get_available clock spot_id now d)))
   \<and> snd (get_available clock spot_id now d) = d"
proof -
  have "filter (\<lambda>s. pslot_reservations s \<le> pslot_capacity s \<and> pslot_spot_id s = spot_id
                    \<and> (case now of None \<Rightarrow> clock | Some n \<Rightarrow> n) \<le> pslot_start s) (pslots d)
      = filter (\<lambda>s. pslot_spot_id s = spot_id \<and> pslot_reservations s \<le> pslot_capacity s
                    \<and> pslot_start s \<ge> (case now of None \<Rightarrow> clock | Some n \<Rightarrow> n)) (pslots d)"
    by (rule filter_cong) auto
  then show ?thesis
    by (simp add: get_available_fst get_available_snd)
qed

text \<open>The listing of \<open>concert_db\<close> at \<open>now = 60\<close>.\<close>

theorem get_available_exact_witness:
  "mset (fst (get_available 50 7 (Some 60) concert_db)) = {#evening#}
   \<and> sorted (map pslot_start (fst (get_available 50 7 (Some 60) concert_db)))
   \<and> snd (get_available 50 7 (Some 60) concert_db) = concert_db"
  using get_available_exact [of 50 7 "Some 60" concert_db]
  by (simp add: concert_db_def evening_def)

text \<open>
  C3. On every successful reservation the ticket row inserted has the \<open>reservations\<close>
  counter of the chosen slot, read before the increment, as its \<open>serial_number\<close>, and
  afterwards the counter of the slot is that value plus one. Hence the property
  \<open>serials_ok\<close>, that the tickets of every slot carry the serial numbers
  \<open>0, 1, \<dots>, reservations - 1\<close> in the order of their issuance, is kept by every
  reservation.
\<close>

theorem serial_is_counter_before:
  assumes "reserve_ticket clock R spot_name note d = (Inr (Some cticket), d')"
  shows "\<exists>pslot rest pticket.
           fst (get_available clock (cticket_spot_id cticket) None d) = pslot # rest
         \<and> ptickets d' = ptickets d @ [pticket]
         \<and> pticket_ticket_id pticket = cticket_ticket_id cticket
         \<and> pticket_slot_id pticket = pslot_id pslot
         \<and> pticket_serial_number pticket = pslot_reservations pslot
         \<and> pslot_reservations ` {s \<in> set (pslots d'). pslot_id s = pslot_id pslot}
             = {pslot_reservations pslot + 1}
         \<and> (serials_ok d \<longrightarrow> serials_ok d')"
proof -
  from reserve_ticket_SomeD [OF assms] obtain spot pslot rest where
    sp: "filter (\<lambda>s. pspot_name s = spot_name) (pspots d) = [spot]"
    and fr: "make_ticket_id R \<notin> set (map pticket_ticket_id (ptickets d))"
    and av: "fst (get_available clock (pspot_id spot) None d) = pslot # rest"
    and ct: "cticket = ticket_view R spot_name note (pspot_id spot) pslot"
    and d': "d' = PSlot_save (pslot\<lparr>pslot_reservations := pslot_reservations pslot + 1\<rparr>)
                  (d\<lparr>ptickets := ptickets d @ [ticket_row R note (pspot_id spot) pslot]\<rparr>)"
    by (elim exE conjE) (rule that; assumption)
  let ?t = "ticket_row R note (pspot_id spot) pslot"
  have mem: "pslot \<in> set (pslots d)" by (rule available_in_table [OF av])
  have 1: "fst (get_available clock (cticket_spot_id cticket) None d) = pslot # rest"
    using av by (simp add: ct ticket_view_def)
  have 2: "ptickets d' = ptickets d @ [?t]" by (simp add: d' ptickets_after)
  have 3: "pticket_ticket_id ?t = cticket_ticket_id cticket"
    by (simp add: ct ticket_view_def ticket_row_def)
  have 4: "pticket_slot_id ?t = pslot_id pslot" by (simp add: ticket_row_def)
  have 5: "pticket_serial_number ?t = pslot_reservations pslot" by (simp add: ticket_row_def)
  have 6: "pslot_reservations ` {s \<in> set (pslots d'). pslot_id s = pslot_id pslot}
             = {pslot_reservations pslot + 1}"
    using saved_image [OF mem, of "pslot\<lparr>pslot_reservations := pslot_reservations pslot + 1\<rparr>"]
    by (simp add: d' pslots_after)
  have 7: "serials_ok d \<longrightarrow> serials_ok d'"
    using serials_ok_after [OF _ mem] by (simp add: d')
  from 1 2 3 4 5 6 7 show ?thesis by blast
qed

text \<open>
  In \<open>concert_db\<close> the slot has the counter 1 and one ticket, of serial number 0; the
  reservation inserts a ticket of serial number 1.
\<close>

theorem serial_is_counter_before_witness:
  "reserve_ticket 50 (1, 2) ''Concert'' None concert_db
     = (Inr (Some (ticket_view (1, 2) ''Concert'' None 7 evening)),
        PSlot_save (evening\<lparr>pslot_reservations := 2\<rparr>)
          (concert_db\<lparr>ptickets := [first_ticket, ticket_row (1, 2) None 7 evening]\<rparr>))
   \<and> serials_ok concert_db
   \<and> serials_ok (PSlot_save (evening\<lparr>pslot_reservations := 2\<rparr>)
          (concert_db\<lparr>ptickets := [first_ticket, ticket_row (1, 2) None 7 evening]\<rparr>))"
proof -
  let ?d' = "PSlot_save (evening\<lparr>pslot_reservations := 2\<rparr>)
          (concert_db\<lparr>ptickets := [first_ticket, ticket_row (1, 2) None 7 evening]\<rparr>)"
  have h1: "filter (\<lambda>s. pspot_name s = ''Concert'') (pspots concert_db) = [concert]"
    by (simp add: concert_db_def concert_def)
  have h2: "fst (get_available 50 (pspot_id concert) None concert_db) = [evening]"
    by (simp add: get_available_def concert_db_def concert_def evening_def)
  have h4: "make_ticket_id (1, 2) \<notin> set (map pticket_ticket_id (ptickets concert_db))"
    by (simp add: make_ticket_id_def concert_db_def first_ticket_def)
  have r: "reserve_ticket 50 (1, 2) ''Concert'' None concert_db
     = (Inr (Some (ticket_view (1, 2) ''Concert'' None 7 evening)), ?d')"
    using reserve_ticket_some [OF h1 h2 h4, of None]
    by (simp add: concert_def evening_def concert_db_def)
  have ok: "serials_ok concert_db"
    by (simp add: serials_ok_def tickets_of_def concert_db_def evening_def first_ticket_def)
  from serial_is_counter_before [OF r] ok have "serials_ok ?d'" by blast
  with r ok show ?thesis by simp
qed

text \<open>
  C4. When a ticket row matches \<open>(ticket_id, spot_id)\<close>, a redemption returns the
  \<open>presentments\<close> counter of the first such row as it was and leaves the first matching row
  with the counter plus one. \<open>m\<close> redemptions one after the other return the counter,
  the counter plus one, and so on; from the counter 0 they return \<open>0, 1, \<dots>, m - 1\<close>.
\<close>

theorem redeem_counts:
  assumes "filter (\<lambda>t. pticket_ticket_id t = ticket_id \<and> pticket_spot_id t = spot_id) (ptickets d)
             = pticket # rest"
  shows "fst (redeem_ticket spot_id ticket_id d) = Inr (pticket_presentments pticket)
       \<and> (\<exists>rest'. filter (\<lambda>t. pticket_ticket_id t = ticket_id \<and> pticket_spot_id t = spot_id)
                     (ptickets (snd (redeem_ticket spot_id ticket_id d)))
                   = pticket\<lparr>pticket_presentments := pticket_presentments pticket + 1\<rparr> # rest')
       \<and> fst (redeem_repeat m spot_id ticket_id d)
           = map (\<lambda>k. Inr (pticket_presentments pticket + int k)) [0..<m]
       \<and> (pticket_presentments pticket = 0 \<longrightarrow>
            fst (redeem_repeat m spot_id ticket_id d) = map (\<lambda>k. Inr (int k)) [0..<m])"
  using redeem_ticket_next [OF assms] redeem_repeat_counts [OF assms, of m]
  by (simp add: redeem_ticket_found [OF assms])

text \<open>Three redemptions of the ticket of \<open>concert_db\<close>.\<close>

theorem redeem_counts_witness:
  "filter (\<lambda>t. pticket_ticket_id t = 5 \<and> pticket_spot_id t = 7) (ptickets concert_db)
     = [first_ticket]
   \<and> pticket_presentments first_ticket = 0
   \<and> fst (redeem_ticket 7 5 concert_db) = Inr 0
   \<and> fst (redeem_repeat 3 7 5 concert_db) = [Inr 0, Inr 1, Inr 2]"
proof -
  have h: "filter (\<lambda>t. pticket_ticket_id t = 5 \<and> pticket_spot_id t = 7) (ptickets concert_db)
     = [first_ticket]"
    by (simp add: concert_db_def first_ticket_def)
  have p: "pticket_presentments first_ticket = 0" by (simp add: first_ticket_def)
  have u: "[0..<3] = [0, 1, 2]" by (simp add: upt_rec)
  from redeem_counts [OF h, of 3] h p u show ?thesis by simp
qed

text \<open>
  C5. When exactly one spot row has the name and the listing of available slots of that
  spot is empty, \<open>reserve_ticket\<close> returns \<open>None\<close> (the result \<open>Inr None\<close>), which is no
  raised error (no \<open>Inl e\<close>), and leaves the database as it was.
\<close>

theorem reserve_no_availability:
  assumes "filter (\<lambda>s. pspot_name s = spot_name) (pspots d) = [spot]"
    and "fst (get_available clock (pspot_id spot) None d) = []"
  shows "reserve_ticket clock R spot_name note d = (Inr None, d)
       \<and> (\<forall>e. fst (reserve_ticket clock R spot_name note d) \<noteq> Inl e)"
  by (simp add: reserve_ticket_none [OF assms])

text \<open>At the time 500 the only slot of \<open>concert_db\<close> has started.\<close>

theorem reserve_no_availability_witness:
  "filter (\<lambda>s. pspot_name s = ''Concert'') (pspots concert_db) = [concert]
   \<and> fst (get_available 500 (pspot_id concert) None concert_db) = []
   \<and> reserve_ticket 500 (1, 2) ''Concert'' None concert_db = (Inr None, concert_db)"
proof -
  have h1: "filter (\<lambda>s. pspot_name s = ''Concert'') (pspots concert_db) = [concert]"
    by (simp add: concert_db_def concert_def)
  have h2: "fst (get_available 500 (pspot_id concert) None concert_db) = []"
    by (simp add: get_available_def concert_db_def concert_def evening_def)
  from reserve_no_availability [OF h1 h2, of "(1, 2)" None] h1 h2 show ?thesis by simp
qed

text \<open>
  C6, as stated, fails: the module has no error kinds. A spot name without a row, a spot
  name with two rows and a ticket that does not exist all raise the one builtin
  \<open>Exception\<close>; the first two come from the same \<open>raise\<close> and differ in the number
  that the message holds.
\<close>

theorem lookup_error_kinds_counterexample:
  "get_spot_id ''Opera'' concert_db
     = Inl (Exception ''spot name Opera associated with 0 IDs'')
   \<and> get_spot_id ''Concert'' twin_db
     = Inl (Exception ''spot name Concert associated with 2 IDs'')
   \<and> redeem_ticket 7 6 concert_db
     = (Inl (Exception ''No ticket issuance found for 6''), concert_db)"
  by (simp add: get_spot_id_def redeem_ticket_def atomic_def redeem_ticket_body_def
      concert_db_def twin_db_def concert_def first_ticket_def str_int_def)

text \<open>
  C6, amended. When the number of spot rows of a name is not one (none, or more than one),
  \<open>get_spot_id\<close>, and with it \<open>reserve_ticket\<close>, raises the builtin \<open>Exception\<close> with the
  message \<open>spot name <name> associated with <number of rows> IDs\<close>; when no ticket row
  matches \<open>(ticket_id, spot_id)\<close>, \<open>redeem_ticket\<close> raises the builtin \<open>Exception\<close> with
  the message \<open>No ticket issuance found for <ticket_id>\<close>. Each is a raised error, not
  a returned value, and the transaction leaves the database as it was.
\<close>

theorem lookup_failures_raise:
  "(length (filter (\<lambda>s. pspot_name s = spot_name) (pspots d)) \<noteq> 1 \<longrightarrow>
      get_spot_id spot_name d =
        Inl (Exception (''spot name '' @ spot_name @ '' associated with ''
               @ str_nat (length (filter (\<lambda>s. pspot_name s = spot_name) (pspots d))) @ '' IDs''))
    \<and> reserve_ticket clock R spot_name note d =
        (Inl (Exception (''spot name '' @ spot_name @ '' associated with ''
               @ str_nat (length (filter (\<lambda>s. pspot_name s = spot_name) (pspots d))) @ '' IDs'')),
         d))
   \<and> (filter (\<lambda>t. pticket_ticket_id t = ticket_id \<and> pticket_spot_id t = spot_id) (ptickets d) = [] \<longrightarrow>
      redeem_ticket spot_id ticket_id d =
        (Inl (Exception (''No ticket issuance found for '' @ str_int ticket_id)), d))"
  by (simp add: get_spot_id_def reserve_ticket_def reserve_ticket_body_def atomic_def
      redeem_ticket_def redeem_ticket_body_def Let_def del: str_nat.simps)

text \<open>
  \<open>concert_db\<close> has no spot called Opera and no ticket 6; \<open>twin_db\<close> holds two spot rows
  of one name, which the primary key excludes in the running system.
\<close>

theorem lookup_failures_raise_witness:
  "length (filter (\<lambda>s. pspot_name s = ''Opera'') (pspots concert_db)) = 0
   \<and> reserve_ticket 50 (1, 2) ''Opera'' None concert_db
       = (Inl (Exception ''spot name Opera associated with 0 IDs''), concert_db)
   \<and> length (filter (\<lambda>s. pspot_name s = ''Concert'') (pspots twin_db)) = 2
   \<and> reserve_ticket 50 (1, 2) ''Concert'' None twin_db
       = (Inl (Exception ''spot name Concert associated with 2 IDs''), twin_db)
   \<and> filter (\<lambda>t. pticket_ticket_id t = - 6 \<and> pticket_spot_id t = 7) (ptickets concert_db) = []
   \<and> redeem_ticket 7 (- 6) concert_db
       = (Inl (Exception ''No ticket issuance found for -6''), concert_db)"
proof -
  have h1: "length (filter (\<lambda>s. pspot_name s = ''Opera'') (pspots concert_db)) = 0"
    by (simp add: concert_db_def concert_def)
  have h2: "length (filter (\<lambda>s. pspot_name s = ''Concert'') (pspots twin_db)) = 2"
    by (simp add: twin_db_def concert_def)
  have h3: "filter (\<lambda>t. pticket_ticket_id t = - 6 \<and> pticket_spot_id t = 7) (ptickets concert_db) = []"
    by (simp add: concert_db_def first_ticket_def)
  have n0: "str_nat 0 = ''0''" and n2: "str_nat 2 = ''2''" and i6: "str_int (- 6) = ''-6''"
    by (simp_all add: str_int_def)
  from lookup_failures_raise [of "''Opera''" concert_db 50 "(1, 2)" None "- 6" 7]
    lookup_failures_raise [of "''Concert''" twin_db 50 "(1, 2)" None "- 6" 7]
    h1 h2 h3 n0 n2 i6
  show ?thesis by (simp del: str_nat.simps)
qed

text \<open>
  C7. The claim is that the slot view of the ticket returned carries the stored start,
  end, capacity and note of the chosen slot. \<open>reserve_ticket\<close> builds the slot view from
  the stored start, end and note and passes no capacity, so the view takes the default
  8192: the slot of \<open>concert_db\<close> is stored with the capacity 1, as \<open>make_slot\<close> stores
  it from the spot's view, and the ticket reports 8192.
\<close>

theorem ticket_view_drops_capacity:
  "fst (reserve_ticket 50 (1, 2) ''Concert'' None concert_db)
     = Inr (Some \<lparr>cticket_slot =
                    \<lparr>cslot_start = CUnixTime 100, cslot_end = Some (CUnixTime 200),
                     cslot_capacity = Some 8192, cslot_note = Some ''doors at 99''\<rparr>,
                  cticket_spot_name = ''Concert'', cticket_spot_id = 7,
                  cticket_ticket_id = 3, cticket_note = None\<rparr>)
   \<and> fst (get_available 50 7 None concert_db) = [evening]
   \<and> pslot_capacity evening = 1"
  by (simp add: reserve_ticket_def atomic_def reserve_ticket_body_def get_spot_id_def
      get_available_def concert_db_def concert_def evening_def first_ticket_def
      PTicket_create_def CSlot_init_def capacity_field_def capacity_default_def
      make_ticket_id_def)

text \<open>
  C8, as stated, fails: a slot view built without a capacity has the capacity 8192, not 1.
\<close>

theorem capacity_default_counterexample:
  "CSlot_init (CUnixTime 100) None Omitted None
     = Inr \<lparr>cslot_start = CUnixTime 100, cslot_end = None, cslot_capacity = Some 8192,
            cslot_note = None\<rparr>"
  by (simp add: CSlot_init_def capacity_field_def capacity_default_def)

text \<open>
  C8, amended. A slot view built without a capacity has the capacity 8192; an integer
  capacity \<open>n\<close> is accepted if and only if \<open>0 \<le> n \<le> 8192\<close>, is then the view's
  capacity, and is otherwise refused with a validation error; \<open>make_slot\<close> stores the
  view's capacity in the slot row.
\<close>

theorem capacity_default_and_bounds:
  "(\<exists>c. CSlot_init start end Omitted note = Inr c \<and> cslot_capacity c = Some 8192)
   \<and> ((\<exists>c. CSlot_init start end (Supplied (Some n)) note = Inr c) \<longleftrightarrow> 0 \<le> n \<and> n \<le> 8192)
   \<and> (CSlot_init start end (Supplied (Some n)) note = Inr c \<longrightarrow> cslot_capacity c = Some n)
   \<and> (\<not> (0 \<le> n \<and> n \<le> 8192) \<longrightarrow>
        CSlot_init start end (Supplied (Some n)) note = Inl ValidationError)
   \<and> (make_slot R H c spot_id d = Inr d' \<longrightarrow>
        (\<exists>row. pslots d' = pslots d @ [row] \<and> cslot_capacity c = Some (pslot_capacity row)))"
proof -
  have 1: "\<exists>c. CSlot_init start end Omitted note = Inr c \<and> cslot_capacity c = Some 8192"
    by (simp add: CSlot_init_def capacity_field_def capacity_default_def)
  have 2: "(\<exists>c. CSlot_init start end (Supplied (Some n)) note = Inr c) \<longleftrightarrow> 0 \<le> n \<and> n \<le> 8192"
    by (simp add: CSlot_init_def capacity_field_def)
  have 3: "CSlot_init start end (Supplied (Some n)) note = Inr c \<longrightarrow> cslot_capacity c = Some n"
    by (auto simp: CSlot_init_def capacity_field_def split: if_splits)
  have 4: "\<not> (0 \<le> n \<and> n \<le> 8192) \<longrightarrow>
        CSlot_init start end (Supplied (Some n)) note = Inl ValidationError"
    by (simp add: CSlot_init_def capacity_field_def)
  have 5: "make_slot R H c spot_id d = Inr d' \<longrightarrow>
        (\<exists>row. pslots d' = pslots d @ [row] \<and> cslot_capacity c = Some (pslot_capacity row))"
    using make_slot_InrD by blast
  from 1 2 3 4 5 show ?thesis by blast
qed

text \<open>The capacities 5 and 9000, and the row stored for capacity 5.\<close>

theorem capacity_default_and_bounds_witness:
  "(\<exists>c. CSlot_init (CUnixTime 100) None Omitted None = Inr c \<and> cslot_capacity c = Some 8192)
   \<and> CSlot_init (CUnixTime 100) None (Supplied (Some 5)) None = Inr short_slot
   \<and> cslot_capacity short_slot = Some 5
   \<and> CSlot_init (CUnixTime 100) None (Supplied (Some 9000)) None = Inl ValidationError
   \<and> make_slot (1, 2) (4, 8) short_slot 7 empty_db
       = Inr \<lparr>pspots = [],
              pslots = [\<lparr>pslot_id = 15, pslot_spot_id = 7, pslot_start = 100, pslot_end = None,
                         pslot_capacity = 5, pslot_note = None, pslot_reservations = 0\<rparr>],
              ptickets = []\<rparr>"
proof -
  have a: "CSlot_init (CUnixTime 100) None (Supplied (Some 5)) None = Inr short_slot"
    by (simp add: CSlot_init_def capacity_field_def short_slot_def)
  have b: "\<not> (0 \<le> (9000::int) \<and> (9000::int) \<le> 8192)" by simp
  have m: "make_slot (1, 2) (4, 8) short_slot 7 empty_db
       = Inr \<lparr>pspots = [],
              pslots = [\<lparr>pslot_id = 15, pslot_spot_id = 7, pslot_start = 100, pslot_end = None,
                         pslot_capacity = 5, pslot_note = None, pslot_reservations = 0\<rparr>],
              ptickets = []\<rparr>"
    by (simp add: make_slot_def PSlot_create_def short_slot_def empty_db_def make_id_def)
  from capacity_default_and_bounds [of "CUnixTime 100" None None 5 short_slot]
    capacity_default_and_bounds [of "CUnixTime 100" None None 9000]
    a b m
  show ?thesis by simp
qed

text \<open>
  C10. When the chosen slot has the stored \<open>end\<close> 0, the ticket view of a successful
  reservation has a slot view with \<open>end = None\<close>.
\<close>

theorem epoch_end_is_dropped:
  assumes "reserve_ticket clock R spot_name note d = (Inr (Some cticket), d')"
    and "fst (get_available clock (cticket_spot_id cticket) None d) = pslot # rest"
    and "pslot_end pslot = Some 0"
  shows "cslot_end (cticket_slot cticket) = None"
proof -
  from reserve_ticket_SomeD [OF assms(1)] obtain spot pslot' rest' where
    sp: "filter (\<lambda>s. pspot_name s = spot_name) (pspots d) = [spot]"
    and fr: "make_ticket_id R \<notin> set (map pticket_ticket_id (ptickets d))"
    and av: "fst (get_available clock (pspot_id spot) None d) = pslot' # rest'"
    and ct: "cticket = ticket_view R spot_name note (pspot_id spot) pslot'"
    and d': "d' = PSlot_save (pslot'\<lparr>pslot_reservations := pslot_reservations pslot' + 1\<rparr>)
                  (d\<lparr>ptickets := ptickets d @ [ticket_row R note (pspot_id spot) pslot']\<rparr>)"
    by (elim exE conjE) (rule that; assumption)
  from assms(2) av have "pslot' = pslot" by (simp add: ct ticket_view_def)
  with assms(3) show ?thesis by (simp add: ct ticket_view_def)
qed

text \<open>The slot of \<open>epoch_db\<close> ends at the epoch.\<close>

theorem epoch_end_is_dropped_witness:
  "reserve_ticket 50 (1, 2) ''Concert'' None epoch_db
     = (Inr (Some (ticket_view (1, 2) ''Concert'' None 7 epoch_slot)),
        PSlot_save (epoch_slot\<lparr>pslot_reservations := 1\<rparr>)
          (epoch_db\<lparr>ptickets := [ticket_row (1, 2) None 7 epoch_slot]\<rparr>))
   \<and> fst (get_available 50 7 None epoch_db) = [epoch_slot]
   \<and> pslot_end epoch_slot = Some 0
   \<and> cslot_end (cticket_slot (ticket_view (1, 2) ''Concert'' None 7 epoch_slot)) = None"
proof -
  have h1: "filter (\<lambda>s. pspot_name s = ''Concert'') (pspots epoch_db) = [concert]"
    by (simp add: epoch_db_def concert_def)
  have h2: "fst (get_available 50 (pspot_id concert) None epoch_db) = [epoch_slot]"
    by (simp add: get_available_def epoch_db_def concert_def epoch_slot_def)
  have h4: "make_ticket_id (1, 2) \<notin> set (map pticket_ticket_id (ptickets epoch_db))"
    by (simp add: epoch_db_def)
  have r: "reserve_ticket 50 (1, 2) ''Concert'' None epoch_db
     = (Inr (Some (ticket_view (1, 2) ''Concert'' None 7 epoch_slot)),
        PSlot_save (epoch_slot\<lparr>pslot_reservations := 1\<rparr>)
          (epoch_db\<lparr>ptickets := [ticket_row (1, 2) None 7 epoch_slot]\<rparr>))"
    using reserve_ticket_some [OF h1 h2 h4, of None]
    by (simp add: concert_def epoch_slot_def epoch_db_def)
  have a: "fst (get_available 50 (cticket_spot_id (ticket_view (1, 2) ''Concert'' None 7 epoch_slot)) None epoch_db)
            = [epoch_slot]"
    using h2 by (simp add: ticket_view_def concert_def)
  have e: "pslot_end epoch_slot = Some 0" by (simp add: epoch_slot_def)
  from epoch_end_is_dropped [OF r a e] r a e show ?thesis
    by (simp add: ticket_view_def)
qed

end
